theory Spec2Isabelle
  imports Main
begin

unbundle bit_operations_syntax

section \<open>Values of the host language\<close>

text \<open>
  The permission module keeps every permission set as a decimal string and converts it
  with \<open>BigInt(...)\<close> before each bitwise operation. A bigint is an unbounded
  two's-complement integer, here \<^typ>\<open>int\<close> with \<open>AND\<close>, \<open>OR\<close> and \<open>NOT\<close>.
  Strings are lists of 8-bit characters; identifiers and permission strings of the
  platform are ASCII.
\<close>

text \<open>
  The catalogue of capability flags. The \<open>MISSING_...\<close> members of \<open>Errors\<close>
  (api/types/errors.ts) name one error per flag; the flags are those names.
\<close>

datatype Permission =
    CREATE_INSTANT_INVITE | KICK_MEMBERS | BAN_MEMBERS | ADMINISTRATOR
  | MANAGE_CHANNELS | MANAGE_GUILD | ADD_REACTIONS | VIEW_AUDIT_LOG
  | PRIORITY_SPEAKER | STREAM | VIEW_CHANNEL | SEND_MESSAGES
  | SEND_TTS_MESSAGES | MANAGE_MESSAGES | EMBED_LINKS | ATTACH_FILES
  | READ_MESSAGE_HISTORY | MENTION_EVERYONE | USE_EXTERNAL_EMOJIS
  | VIEW_GUILD_INSIGHTS | CONNECT | SPEAK | MUTE_MEMBERS | DEAFEN_MEMBERS
  | MOVE_MEMBERS | USE_VAD | CHANGE_NICKNAME | MANAGE_NICKNAMES
  | MANAGE_ROLES | MANAGE_WEBHOOKS | MANAGE_EMOJIS

text \<open>
  Modelled from the spec: the \<open>Permissions\<close> enum of types/mod.ts is not among the
  source files. The spec gives every flag one distinct bit; the module's sentinel
  \<open>"8"\<close> and its comments fix ADMINISTRATOR at the value 8, and the other positions are
  the ones the platform publishes.
\<close>

fun Permissions :: "Permission \<Rightarrow> int" where
  "Permissions CREATE_INSTANT_INVITE = 0x1"
| "Permissions KICK_MEMBERS = 0x2"
| "Permissions BAN_MEMBERS = 0x4"
| "Permissions ADMINISTRATOR = 0x8"
| "Permissions MANAGE_CHANNELS = 0x10"
| "Permissions MANAGE_GUILD = 0x20"
| "Permissions ADD_REACTIONS = 0x40"
| "Permissions VIEW_AUDIT_LOG = 0x80"
| "Permissions PRIORITY_SPEAKER = 0x100"
| "Permissions STREAM = 0x200"
| "Permissions VIEW_CHANNEL = 0x400"
| "Permissions SEND_MESSAGES = 0x800"
| "Permissions SEND_TTS_MESSAGES = 0x1000"
| "Permissions MANAGE_MESSAGES = 0x2000"
| "Permissions EMBED_LINKS = 0x4000"
| "Permissions ATTACH_FILES = 0x8000"
| "Permissions READ_MESSAGE_HISTORY = 0x10000"
| "Permissions MENTION_EVERYONE = 0x20000"
| "Permissions USE_EXTERNAL_EMOJIS = 0x40000"
| "Permissions VIEW_GUILD_INSIGHTS = 0x80000"
| "Permissions CONNECT = 0x100000"
| "Permissions SPEAK = 0x200000"
| "Permissions MUTE_MEMBERS = 0x400000"
| "Permissions DEAFEN_MEMBERS = 0x800000"
| "Permissions MOVE_MEMBERS = 0x1000000"
| "Permissions USE_VAD = 0x2000000"
| "Permissions CHANGE_NICKNAME = 0x4000000"
| "Permissions MANAGE_NICKNAMES = 0x8000000"
| "Permissions MANAGE_ROLES = 0x10000000"
| "Permissions MANAGE_WEBHOOKS = 0x20000000"
| "Permissions MANAGE_EMOJIS = 0x40000000"

text \<open>
  The members of \<open>Errors\<close> this module throws. \<open>MISSING p\<close> stands for the member
  \<open>MISSING_<p>\<close> that the template string \<open>`MISSING_${missing[0]}`\<close> selects;
  errors.ts has one for every flag.
\<close>

datatype Errors =
    GUILD_NOT_FOUND | MEMBER_NOT_FOUND | CHANNEL_NOT_FOUND | ROLE_NOT_FOUND
  | MISSING Permission

text \<open>
  What a call can throw: \<open>Error(Errors.X)\<close>, or the \<open>SyntaxError\<close> / \<open>TypeError\<close>
  of a failed \<open>BigInt\<close> conversion.
\<close>

datatype thrown = Error Errors | SyntaxError | TypeError

text \<open>
  The values handed to \<open>BigInt(...)\<close> and to the truthiness test of
  \<open>.filter((id) => id)\<close>: a string, \<open>undefined\<close> (a failed \<open>?.\<close> lookup), or the
  promise an \<open>async\<close> function returns when it is called without \<open>await\<close>. The
  promise carries the outcome it settles with.
\<close>

datatype js_value = Undefined | Str string | Promise "thrown + string"

fun truthy :: "js_value \<Rightarrow> bool" where
  "truthy Undefined = False"
| "truthy (Str s) = (s \<noteq> [])"
| "truthy (Promise p) = True"

subsection \<open>String to bigint\<close>

text \<open>
  \<open>StringToBigInt\<close> of the language standard: surrounding white space is dropped, the
  empty string is 0, and what remains must be decimal digits with an optional sign or an
  unsigned literal with prefix \<open>0x\<close>, \<open>0o\<close> or \<open>0b\<close>; anything else is a SyntaxError.
\<close>

definition StrWhiteSpaceChar :: "char \<Rightarrow> bool" where
  "StrWhiteSpaceChar c = (of_char c \<in> {9, 10, 11, 12, 13, 32, 160 :: nat})"

definition trim :: "string \<Rightarrow> string" where
  "trim s = rev (dropWhile StrWhiteSpaceChar (rev (dropWhile StrWhiteSpaceChar s)))"

definition digitVal :: "char \<Rightarrow> nat option" where
  "digitVal c =
     (let n = (of_char c :: nat) in
      if 48 \<le> n \<and> n \<le> 57 then Some (n - 48)
      else if 97 \<le> n \<and> n \<le> 102 then Some (n - 87)
      else if 65 \<le> n \<and> n \<le> 70 then Some (n - 55)
      else None)"

fun digitsValue :: "nat \<Rightarrow> nat \<Rightarrow> string \<Rightarrow> nat option" where
  "digitsValue base acc [] = Some acc"
| "digitsValue base acc (c # cs) =
     (case digitVal c of
        None \<Rightarrow> None
      | Some d \<Rightarrow> if d < base then digitsValue base (acc * base + d) cs else None)"

definition Digits :: "nat \<Rightarrow> string \<Rightarrow> nat option" where
  "Digits base ds = (if ds = [] then None else digitsValue base 0 ds)"

fun StrIntegerLiteral :: "string \<Rightarrow> int option" where
  "StrIntegerLiteral [] = None"
| "StrIntegerLiteral (c # cs) =
     (if c = CHR ''+'' then map_option int (Digits 10 cs)
      else if c = CHR ''-'' then map_option (\<lambda>n. - int n) (Digits 10 cs)
      else if c = CHR ''0'' \<and> cs \<noteq> [] \<and> hd cs \<in> {CHR ''x'', CHR ''X''}
        then map_option int (Digits 16 (tl cs))
      else if c = CHR ''0'' \<and> cs \<noteq> [] \<and> hd cs \<in> {CHR ''o'', CHR ''O''}
        then map_option int (Digits 8 (tl cs))
      else if c = CHR ''0'' \<and> cs \<noteq> [] \<and> hd cs \<in> {CHR ''b'', CHR ''B''}
        then map_option int (Digits 2 (tl cs))
      else map_option int (Digits 10 (c # cs)))"

definition StringToBigInt :: "string \<Rightarrow> thrown + int" where
  "StringToBigInt s =
     (let t = trim s in
      if t = [] then Inr 0
      else case StrIntegerLiteral t of None \<Rightarrow> Inl SyntaxError | Some v \<Rightarrow> Inr v)"

text \<open>
  \<open>BigInt(value)\<close>: \<open>undefined\<close> is a TypeError; an object is first turned into a
  primitive, which for a promise is the string \<open>"[object Promise]"\<close>.
\<close>

fun BigInt :: "js_value \<Rightarrow> thrown + int" where
  "BigInt Undefined = Inl TypeError"
| "BigInt (Str s) = StringToBigInt s"
| "BigInt (Promise p) = StringToBigInt ''[object Promise]''"

subsection \<open>Bigint to string\<close>

definition digitChar :: "nat \<Rightarrow> char" where
  "digitChar d = char_of (48 + d)"

fun DecimalDigits :: "nat \<Rightarrow> string" where
  "DecimalDigits n =
     (if n < 10 then [digitChar n] else DecimalDigits (n div 10) @ [digitChar (n mod 10)])"

declare DecimalDigits.simps [simp del]

definition toString :: "int \<Rightarrow> string" where
  "toString n = (if n < 0 then CHR ''-'' # DecimalDigits (nat (- n)) else DecimalDigits (nat n))"

text \<open>
  The relational operator \<open><\<close> on two strings: the first differing character decides,
  by character code; a proper prefix is smaller.
\<close>

fun string_less :: "string \<Rightarrow> string \<Rightarrow> bool" where
  "string_less [] [] = False"
| "string_less [] (y # ys) = True"
| "string_less (x # xs) [] = False"
| "string_less (x # xs) (y # ys) =
     (if x = y then string_less xs ys else (of_char x :: nat) < of_char y)"

section \<open>The cached snapshot\<close>

text \<open>
  Only the fields the permission module reads are kept. \<open>Role\<close> is the interface of
  api/structures/role.ts, \<open>Channel\<close> the one of api/structures/channel.ts.
\<close>

record Role =
  id_role :: string
  position :: int
  permissions :: string

text \<open>
  Modelled from the spec: \<open>OverwritePayload\<close> (types/mod.ts) is not among the source
  files. An overwrite has an identity (a role ID or a member ID), an allow set and a
  deny set; the sets are strings, as \<open>Role.permissions\<close> is, and go through
  \<open>BigInt(...)\<close> before use.
\<close>

record Overwrite =
  id_overwrite :: string
  allow :: string
  deny :: string

record Channel =
  id_channel :: string
  guildID :: string
  permissionOverwrites :: "Overwrite list"

text \<open>
  Modelled from the spec: the guild and member structures (api/structures/guild.ts,
  member.ts) are not among the source files. A guild has an owner and a collection
  of roles by ID; a member has, per guild ID, the list of role IDs it holds there.
\<close>

record Guild =
  id_guild :: string
  ownerID :: string
  roles :: "string \<rightharpoonup> Role"

record GuildMember =
  roles_member :: "string list"

record Member =
  id_member :: string
  guilds :: "string \<rightharpoonup> GuildMember"

text \<open>
  \<open>cacheHandlers.get(table, id)\<close> reads one of three tables and yields \<open>undefined\<close>
  for a missing key. The tables are a parameter of every operation.
\<close>

record Cache =
  cache_guilds :: "string \<rightharpoonup> Guild"
  cache_members :: "string \<rightharpoonup> Member"
  cache_channels :: "string \<rightharpoonup> Channel"

section \<open>Base permissions\<close>

text \<open>
  The callback chain of \<open>computeBasePermissions\<close>: \<open>.reduce\<close> converts each remaining
  permission string and ORs it into the accumulator; a string that is no integer literal
  throws out of the whole call.
\<close>

fun reduce_bits :: "int \<Rightarrow> js_value list \<Rightarrow> thrown + int" where
  "reduce_bits bits [] = Inr bits"
| "reduce_bits bits (p # rest) =
     (case BigInt p of
        Inl e \<Rightarrow> Inl e
      | Inr b \<Rightarrow> reduce_bits (bits OR b) rest)"

definition role_permissions :: "Guild \<Rightarrow> string \<Rightarrow> js_value" where
  "role_permissions guild rid =
     (case roles guild rid of None \<Rightarrow> Undefined | Some role \<Rightarrow> Str (permissions role))"

definition member_roles :: "Member \<Rightarrow> string \<Rightarrow> string list option" where
  "member_roles member gid = map_option roles_member (guilds member gid)"

definition computeBasePermissions :: "Cache \<Rightarrow> string \<Rightarrow> string \<Rightarrow> thrown + string" where
  "computeBasePermissions cache memberID gid =
     (case cache_guilds cache gid of
        None \<Rightarrow> Inl (Error GUILD_NOT_FOUND)
      | Some guild \<Rightarrow>
          if ownerID guild = memberID then Inr ''8''
          else
            (case cache_members cache memberID of
               None \<Rightarrow> Inl (Error MEMBER_NOT_FOUND)
             | Some member \<Rightarrow>
                 (case reduce_bits 0
                         (filter truthy
                            (map (role_permissions guild)
                               ((case member_roles member gid of None \<Rightarrow> [] | Some rs \<Rightarrow> rs)
                                  @ [gid])))
                  of
                    Inl e \<Rightarrow> Inl e
                  | Inr bits \<Rightarrow>
                      let perms = 0 OR bits in
                      if perms AND Permissions ADMINISTRATOR \<noteq> 0 then Inr ''8''
                      else Inr (toString perms))))"

section \<open>Channel overwrites\<close>

text \<open>
  \<open>overwrites.find((overwrite) => overwrite.id === x)\<close>: the first overwrite with
  that identity.
\<close>

definition find_overwrite :: "Overwrite list \<Rightarrow> string \<Rightarrow> Overwrite option" where
  "find_overwrite overwrites x = find (\<lambda>overwrite. id_overwrite overwrite = x) overwrites"

text \<open>
  The everyone tier and the member tier share one shape:
  \<open>if (ow) { permissions &= ~BigInt(ow.deny); permissions |= BigInt(ow.allow); }\<close>.
\<close>

definition apply_overwrite :: "int \<Rightarrow> Overwrite option \<Rightarrow> thrown + int" where
  "apply_overwrite perms found =
     (case found of
        None \<Rightarrow> Inr perms
      | Some ow \<Rightarrow>
          (case BigInt (Str (deny ow)) of
             Inl e \<Rightarrow> Inl e
           | Inr d \<Rightarrow>
               (case BigInt (Str (allow ow)) of
                  Inl e \<Rightarrow> Inl e
                | Inr a \<Rightarrow> Inr ((perms AND NOT d) OR a))))"

text \<open>
  \<open>for (const roleID in roles)\<close> enumerates the property keys of the array, that is the
  indices \<open>"0"\<close>, \<open>"1"\<close>, ... as strings, and nothing when \<open>roles\<close> is
  \<open>undefined\<close>.
\<close>

definition for_in_keys :: "string list option \<Rightarrow> string list" where
  "for_in_keys rs =
     (case rs of None \<Rightarrow> [] | Some xs \<Rightarrow> map (\<lambda>i. toString (int i)) [0..<length xs])"

text \<open>
  The body of the role loop, on the pair \<open>(allow, deny)\<close>:
  \<open>deny &= ~BigInt(overwriteRole.deny); allow |= BigInt(overwriteRole.allow);\<close>.
\<close>

fun role_loop :: "Overwrite list \<Rightarrow> string list \<Rightarrow> int \<times> int \<Rightarrow> thrown + int \<times> int" where
  "role_loop overwrites [] (allow_acc, deny_acc) = Inr (allow_acc, deny_acc)"
| "role_loop overwrites (roleID # rest) (allow_acc, deny_acc) =
     (case find_overwrite overwrites roleID of
        None \<Rightarrow> role_loop overwrites rest (allow_acc, deny_acc)
      | Some overwriteRole \<Rightarrow>
          (case BigInt (Str (deny overwriteRole)) of
             Inl e \<Rightarrow> Inl e
           | Inr d \<Rightarrow>
               (case BigInt (Str (allow overwriteRole)) of
                  Inl e \<Rightarrow> Inl e
                | Inr a \<Rightarrow> role_loop overwrites rest (allow_acc OR a, deny_acc AND NOT d))))"

text \<open>
  Lines 73 to 115 of \<open>computeChannelOverwrites\<close>: everything after the base
  permissions have become the bigint \<open>permissions\<close> (here \<open>perms\<close>).
\<close>

definition overwrite_tiers :: "Cache \<Rightarrow> string \<Rightarrow> Channel \<Rightarrow> int \<Rightarrow> thrown + string" where
  "overwrite_tiers cache memberID channel perms =
     (if perms AND Permissions ADMINISTRATOR \<noteq> 0 then Inr ''8''
      else
        (case cache_members cache memberID of
           None \<Rightarrow> Inl (Error MEMBER_NOT_FOUND)
         | Some member \<Rightarrow>
             (case apply_overwrite perms
                     (find_overwrite (permissionOverwrites channel) (guildID channel)) of
                Inl e \<Rightarrow> Inl e
              | Inr p1 \<Rightarrow>
                  (case role_loop (permissionOverwrites channel)
                          (for_in_keys (member_roles member (guildID channel))) (0, 0) of
                     Inl e \<Rightarrow> Inl e
                   | Inr (allow_acc, deny_acc) \<Rightarrow>
                       (case apply_overwrite ((p1 AND NOT deny_acc) OR allow_acc)
                               (find_overwrite (permissionOverwrites channel) memberID) of
                          Inl e \<Rightarrow> Inl e
                        | Inr p3 \<Rightarrow> Inr (toString p3))))))"

text \<open>
  \<open>computeChannelOverwrites\<close>. Line 72 calls the asynchronous
  \<open>computeBasePermissions\<close> without \<open>await\<close> and hands the promise itself to
  \<open>BigInt\<close>.
\<close>

definition computeChannelOverwrites :: "Cache \<Rightarrow> string \<Rightarrow> string \<Rightarrow> thrown + string" where
  "computeChannelOverwrites cache memberID channelID =
     (case cache_channels cache channelID of
        None \<Rightarrow> Inl (Error CHANNEL_NOT_FOUND)
      | Some channel \<Rightarrow>
          if guildID channel = [] then Inr ''8''
          else
            (case BigInt (Promise (computeBasePermissions cache memberID (guildID channel))) of
               Inl e \<Rightarrow> Inl e
             | Inr perms \<Rightarrow> overwrite_tiers cache memberID channel perms))"

section \<open>Permission set algebra\<close>

definition has_bits :: "string \<Rightarrow> Permission \<Rightarrow> thrown + bool" where
  "has_bits permissionBits permission =
     (case BigInt (Str permissionBits) of
        Inl e \<Rightarrow> Inl e
      | Inr b \<Rightarrow> Inr (b AND Permissions permission \<noteq> 0))"

fun every_permission :: "string \<Rightarrow> Permission list \<Rightarrow> thrown + bool" where
  "every_permission permissionBits [] = Inr True"
| "every_permission permissionBits (permission # rest) =
     (case has_bits permissionBits permission of
        Inl e \<Rightarrow> Inl e
      | Inr present \<Rightarrow> if present then every_permission permissionBits rest else Inr False)"

definition validatePermissions :: "string \<Rightarrow> Permission list \<Rightarrow> thrown + bool" where
  "validatePermissions permissionBits perms =
     (if permissionBits = ''8'' then Inr True else every_permission permissionBits perms)"

fun forEach_missing :: "string \<Rightarrow> Permission list \<Rightarrow> Permission list \<Rightarrow> thrown + Permission list" where
  "forEach_missing permissionBits [] missing = Inr missing"
| "forEach_missing permissionBits (permission # rest) missing =
     (case has_bits permissionBits permission of
        Inl e \<Rightarrow> Inl e
      | Inr present \<Rightarrow>
          forEach_missing permissionBits rest
            (if \<not> present then missing @ [permission] else missing))"

definition missingPermissions :: "string \<Rightarrow> Permission list \<Rightarrow> thrown + Permission list" where
  "missingPermissions permissionBits perms =
     (if permissionBits = ''8'' then Inr [] else forEach_missing permissionBits perms [])"

definition throwOnMissingGuildPermission ::
  "Cache \<Rightarrow> string \<Rightarrow> string \<Rightarrow> Permission list \<Rightarrow> thrown + unit" where
  "throwOnMissingGuildPermission cache memberID gid perms =
     (case computeBasePermissions cache memberID gid of
        Inl e \<Rightarrow> Inl e
      | Inr permissionBits \<Rightarrow>
          (case missingPermissions permissionBits perms of
             Inl e \<Rightarrow> Inl e
           | Inr missing \<Rightarrow>
               (case missing of
                  [] \<Rightarrow> Inr ()
                | first # others \<Rightarrow> Inl (Error (MISSING first)))))"

section \<open>Role ranking\<close>

text \<open>
  The loop of \<open>highestRole\<close>: a role that the guild does not have is skipped; the
  running maximum is replaced only by a role of strictly larger position.
\<close>

fun highest_loop :: "Guild \<Rightarrow> string list \<Rightarrow> Role option \<Rightarrow> Role option" where
  "highest_loop guild [] memberHighestRole = memberHighestRole"
| "highest_loop guild (roleID # rest) memberHighestRole =
     (case roles guild roleID of
        None \<Rightarrow> highest_loop guild rest memberHighestRole
      | Some role \<Rightarrow>
          highest_loop guild rest
            (case memberHighestRole of
               None \<Rightarrow> Some role
             | Some h \<Rightarrow> if position h < position role then Some role else Some h))"

definition highestRole :: "Cache \<Rightarrow> string \<Rightarrow> string \<Rightarrow> thrown + Role option" where
  "highestRole cache gid memberID =
     (case cache_guilds cache gid of
        None \<Rightarrow> Inl (Error GUILD_NOT_FOUND)
      | Some guild \<Rightarrow>
          (case Option.bind (cache_members cache memberID) (\<lambda>member. member_roles member gid) of
             None \<Rightarrow> Inr (roles guild gid)
           | Some memberRoles \<Rightarrow> Inr (highest_loop guild memberRoles None)))"

text \<open>The comparison both ranking functions end with.\<close>

definition compare_roles :: "Role \<Rightarrow> Role \<Rightarrow> bool" where
  "compare_roles role otherRole =
     (if position role = position otherRole
      then string_less (id_role role) (id_role otherRole)
      else position role > position otherRole)"

definition higherRolePosition :: "Cache \<Rightarrow> string \<Rightarrow> string \<Rightarrow> string \<Rightarrow> thrown + bool" where
  "higherRolePosition cache gid roleID otherRoleID =
     (case cache_guilds cache gid of
        None \<Rightarrow> Inl (Error GUILD_NOT_FOUND)
      | Some guild \<Rightarrow>
          (case (roles guild roleID, roles guild otherRoleID) of
             (Some role, Some otherRole) \<Rightarrow> Inr (compare_roles role otherRole)
           | _ \<Rightarrow> Inl (Error ROLE_NOT_FOUND)))"

definition isHigherPosition :: "Cache \<Rightarrow> string \<Rightarrow> string \<Rightarrow> string \<Rightarrow> thrown + bool" where
  "isHigherPosition cache gid memberID compareRoleID =
     (case cache_guilds cache gid of
        None \<Rightarrow> Inl (Error GUILD_NOT_FOUND)
      | Some guild \<Rightarrow>
          if ownerID guild = memberID then Inr True
          else
            (case highestRole cache gid memberID of
               Inl e \<Rightarrow> Inl e
             | Inr memberHighestRole \<Rightarrow>
                 (case (memberHighestRole, roles guild compareRoleID) of
                    (Some h, Some compareRole) \<Rightarrow> Inr (compare_roles h compareRole)
                  | _ \<Rightarrow> Inl (Error ROLE_NOT_FOUND))))"

section \<open>Notions of the specification\<close>

text \<open>
  A permission string denotes a bitmask when \<open>BigInt\<close> accepts it; the bitmask is the
  value it converts to.
\<close>

definition denotes_bitmask :: "string \<Rightarrow> bool" where
  "denotes_bitmask s = (case StringToBigInt s of Inl e \<Rightarrow> False | Inr v \<Rightarrow> True)"

definition capability_set :: "Role \<Rightarrow> int" where
  "capability_set role = (case StringToBigInt (permissions role) of Inl e \<Rightarrow> 0 | Inr v \<Rightarrow> v)"

text \<open>
  The candidate roles of the base resolver as the specification words them: the roles
  recorded for the member in the guild plus the implicit everyone role, identifiers the
  guild cannot resolve dropped; and the union of their capability sets.
\<close>

definition candidate_roles :: "Guild \<Rightarrow> Member \<Rightarrow> string \<Rightarrow> Role list" where
  "candidate_roles guild member gid =
     List.map_filter (roles guild)
       ((case member_roles member gid of None \<Rightarrow> [] | Some rs \<Rightarrow> rs) @ [gid])"

definition union_of_roles :: "Role list \<Rightarrow> int" where
  "union_of_roles rs = fold (\<lambda>role acc. acc OR capability_set role) rs 0"

text \<open>
  The sentinel invariant on a produced string: it is the sentinel, or it denotes a
  bitmask with the ADMINISTRATOR bit clear. \<open>admin_bit_set\<close> is the bit-level test the
  string comparison \<open>permissionBits === "8"\<close> stands in for.
\<close>

definition admin_bit_set :: "string \<Rightarrow> bool" where
  "admin_bit_set s =
     (case StringToBigInt s of
        Inl e \<Rightarrow> False
      | Inr v \<Rightarrow> v AND Permissions ADMINISTRATOR \<noteq> 0)"

definition sentinel_or_admin_clear :: "string \<Rightarrow> bool" where
  "sentinel_or_admin_clear s = (s = ''8'' \<or> (denotes_bitmask s \<and> \<not> admin_bit_set s))"

definition overwrite_has_admin :: "Overwrite \<Rightarrow> bool" where
  "overwrite_has_admin ow = (admin_bit_set (allow ow) \<or> admin_bit_set (deny ow))"

text \<open>
  The ranking rule as the specification words it: identities are platform-issued
  numbers in creation order, and of two roles at one position the one with the smaller
  identity value outranks the other.
\<close>

definition identity_value :: "string \<Rightarrow> nat" where
  "identity_value s = (case Digits 10 s of None \<Rightarrow> 0 | Some n \<Rightarrow> n)"

definition higherRole_spec :: "Role \<Rightarrow> Role \<Rightarrow> bool" where
  "higherRole_spec a b =
     (position a > position b
      \<or> (position a = position b \<and> identity_value (id_role a) < identity_value (id_role b)))"

section \<open>Example snapshots\<close>

text \<open>
  The end-to-end scenario of the specification: guild \<open>G\<close> owned by \<open>O\<close>, whose everyone
  role grants VIEW_CHANNEL (1024); role \<open>R1\<close>, held by member \<open>M\<close>, grants SEND_MESSAGES
  (2048). Channel \<open>C\<close> denies SEND_MESSAGES to everyone and allows it to \<open>R1\<close>;
  channel \<open>C1\<close> denies it to \<open>R1\<close>; channel \<open>C3\<close> allows it to \<open>R1\<close> and denies it
  to \<open>M\<close>; \<open>DM\<close> is a private channel.
\<close>

definition role_everyone :: Role where
  "role_everyone = \<lparr>id_role = ''G'', position = 0, permissions = ''1024''\<rparr>"

definition role_R1 :: Role where
  "role_R1 = \<lparr>id_role = ''R1'', position = 1, permissions = ''2048''\<rparr>"

definition guild_G :: Guild where
  "guild_G = \<lparr>id_guild = ''G'', ownerID = ''O'',
              roles = [''G'' \<mapsto> role_everyone, ''R1'' \<mapsto> role_R1]\<rparr>"

definition member_M :: Member where
  "member_M = \<lparr>id_member = ''M'', guilds = [''G'' \<mapsto> \<lparr>roles_member = [''R1'']\<rparr>]\<rparr>"

definition channel_C :: Channel where
  "channel_C = \<lparr>id_channel = ''C'', guildID = ''G'',
                permissionOverwrites =
                  [\<lparr>id_overwrite = ''G'', allow = ''0'', deny = ''2048''\<rparr>,
                   \<lparr>id_overwrite = ''R1'', allow = ''2048'', deny = ''0''\<rparr>]\<rparr>"

definition channel_C1 :: Channel where
  "channel_C1 = \<lparr>id_channel = ''C1'', guildID = ''G'',
                 permissionOverwrites =
                   [\<lparr>id_overwrite = ''R1'', allow = ''0'', deny = ''2048''\<rparr>]\<rparr>"

definition channel_C3 :: Channel where
  "channel_C3 = \<lparr>id_channel = ''C3'', guildID = ''G'',
                 permissionOverwrites =
                   [\<lparr>id_overwrite = ''R1'', allow = ''2048'', deny = ''0''\<rparr>,
                    \<lparr>id_overwrite = ''M'', allow = ''0'', deny = ''2048''\<rparr>]\<rparr>"

definition channel_DM :: Channel where
  "channel_DM = \<lparr>id_channel = ''DM'', guildID = [], permissionOverwrites = []\<rparr>"

definition cache_G :: Cache where
  "cache_G = \<lparr>cache_guilds = [''G'' \<mapsto> guild_G],
              cache_members = [''M'' \<mapsto> member_M],
              cache_channels = [''C'' \<mapsto> channel_C, ''C1'' \<mapsto> channel_C1,
                                ''C3'' \<mapsto> channel_C3, ''DM'' \<mapsto> channel_DM]\<rparr>"

text \<open>The same guild with nothing in the member table: the owner is not cached.\<close>

definition cache_no_members :: Cache where
  "cache_no_members = \<lparr>cache_guilds = [''G'' \<mapsto> guild_G],
                       cache_members = Map.empty,
                       cache_channels = Map.empty\<rparr>"

text \<open>
  A guild for ranking: five roles at the same position 5, and a member \<open>M\<close> holding
  \<open>200\<close> and \<open>100\<close>, in that order.
\<close>

definition rank_role :: "string \<Rightarrow> Role" where
  "rank_role rid = \<lparr>id_role = rid, position = 5, permissions = ''0''\<rparr>"

definition guild_ranks :: Guild where
  "guild_ranks = \<lparr>id_guild = ''G'', ownerID = ''O'',
                  roles = [''9'' \<mapsto> rank_role ''9'', ''10'' \<mapsto> rank_role ''10'',
                           ''100'' \<mapsto> rank_role ''100'', ''150'' \<mapsto> rank_role ''150'',
                           ''200'' \<mapsto> rank_role ''200'']\<rparr>"

definition member_ranks :: Member where
  "member_ranks =
     \<lparr>id_member = ''M'', guilds = [''G'' \<mapsto> \<lparr>roles_member = [''200'', ''100'']\<rparr>]\<rparr>"

definition cache_ranks :: Cache where
  "cache_ranks = \<lparr>cache_guilds = [''G'' \<mapsto> guild_ranks],
                  cache_members = [''M'' \<mapsto> member_ranks],
                  cache_channels = Map.empty\<rparr>"

section \<open>Conversions between strings and bigints\<close>

text \<open>A promise is never an integer literal: \<open>BigInt\<close> of it throws.\<close>

lemma BigInt_Promise: "BigInt (Promise p) = Inl SyntaxError"
  by (simp add: StringToBigInt_def trim_def StrWhiteSpaceChar_def Digits_def digitVal_def)

text \<open>
  \<open>toString\<close> and \<open>StringToBigInt\<close> are inverse on every bigint, so a produced
  permission string always converts back to the set it was printed from.
\<close>

lemma of_char_digitChar: "d < 10 \<Longrightarrow> of_char (digitChar d) = 48 + d"
  by (simp add: digitChar_def)

lemma digitVal_digitChar: "d < 10 \<Longrightarrow> digitVal (digitChar d) = Some d"
  by (simp add: digitVal_def of_char_digitChar)

lemma digitsValue_append:
  "digitsValue b acc (xs @ ys) =
     (case digitsValue b acc xs of None \<Rightarrow> None | Some a \<Rightarrow> digitsValue b a ys)"
  by (induction xs arbitrary: acc) (auto split: option.splits)

lemma digitsValue_DecimalDigits: "digitsValue 10 0 (DecimalDigits n) = Some n"
proof (induction n rule: DecimalDigits.induct)
  case (1 n)
  show ?case
  proof (cases "n < 10")
    case True
    then show ?thesis
      by (simp add: DecimalDigits.simps [of n] digitVal_digitChar)
  next
    case False
    with 1 have ih: "digitsValue 10 0 (DecimalDigits (n div 10)) = Some (n div 10)"
      by simp
    have "n mod 10 < 10" by simp
    then have dv: "digitVal (digitChar (n mod 10)) = Some (n mod 10)"
      by (rule digitVal_digitChar)
    from False show ?thesis
      by (simp add: DecimalDigits.simps [of n] digitsValue_append ih dv)
  qed
qed

lemma DecimalDigits_not_Nil: "DecimalDigits n \<noteq> []"
  by (subst DecimalDigits.simps) simp

lemma DecimalDigits_chars:
  "c \<in> set (DecimalDigits n) \<Longrightarrow> 48 \<le> (of_char c :: nat) \<and> (of_char c :: nat) \<le> 57"
proof (induction n rule: DecimalDigits.induct)
  case (1 n)
  show ?case
  proof (cases "n < 10")
    case True
    with 1(2) show ?thesis
      by (simp add: DecimalDigits.simps [of n] of_char_digitChar)
  next
    case False
    have m: "n mod 10 < 10" by simp
    from False 1(2) have "c \<in> set (DecimalDigits (n div 10)) \<or> c = digitChar (n mod 10)"
      by (auto simp: DecimalDigits.simps [of n])
    then show ?thesis
    proof
      assume "c \<in> set (DecimalDigits (n div 10))"
      with 1(1) False show ?thesis by simp
    next
      assume "c = digitChar (n mod 10)"
      with of_char_digitChar [OF m] show ?thesis by simp
    qed
  qed
qed

lemma dropWhile_none: "\<forall>c \<in> set s. \<not> P c \<Longrightarrow> dropWhile P s = s"
  by (cases s) auto

lemma trim_no_space: "\<forall>c \<in> set s. \<not> StrWhiteSpaceChar c \<Longrightarrow> trim s = s"
  by (simp add: trim_def dropWhile_none)

lemma digit_not_space: "48 \<le> (of_char c :: nat) \<Longrightarrow> of_char c \<le> (57 :: nat) \<Longrightarrow> \<not> StrWhiteSpaceChar c"
  by (auto simp: StrWhiteSpaceChar_def)

lemma DecimalDigits_no_space: "c \<in> set (DecimalDigits n) \<Longrightarrow> \<not> StrWhiteSpaceChar c"
  using DecimalDigits_chars [of c n] digit_not_space [of c] by blast

lemma trim_DecimalDigits: "trim (DecimalDigits n) = DecimalDigits n"
  by (rule trim_no_space) (blast dest: DecimalDigits_no_space)

lemma minus_not_space: "\<not> StrWhiteSpaceChar CHR ''-''"
  by (simp add: StrWhiteSpaceChar_def)

lemma trim_minus_DecimalDigits: "trim (CHR ''-'' # DecimalDigits n) = CHR ''-'' # DecimalDigits n"
  by (rule trim_no_space) (auto dest: DecimalDigits_no_space simp: minus_not_space)

lemma StrIntegerLiteral_DecimalDigits: "StrIntegerLiteral (DecimalDigits n) = Some (int n)"
proof -
  obtain c cs where eq: "DecimalDigits n = c # cs"
    using DecimalDigits_not_Nil [of n] by (cases "DecimalDigits n") auto
  have c: "48 \<le> (of_char c :: nat) \<and> (of_char c :: nat) \<le> 57"
    using DecimalDigits_chars [of c n] eq by simp
  then have c1: "c \<noteq> CHR ''+''" and c2: "c \<noteq> CHR ''-''" by auto
  have second: "cs \<noteq> [] \<Longrightarrow> 48 \<le> (of_char (hd cs) :: nat) \<and> (of_char (hd cs) :: nat) \<le> 57"
    using DecimalDigits_chars [of "hd cs" n] eq by (cases cs) auto
  then have nx: "\<not> (cs \<noteq> [] \<and> hd cs \<in> {CHR ''x'', CHR ''X'', CHR ''o'', CHR ''O'', CHR ''b'', CHR ''B''})"
    by auto
  have "StrIntegerLiteral (c # cs) = map_option int (Digits 10 (c # cs))"
    using c1 c2 nx by auto
  also have "\<dots> = Some (int n)"
    using digitsValue_DecimalDigits [of n] eq by (simp add: Digits_def)
  finally show ?thesis by (simp add: eq)
qed

lemma StringToBigInt_toString: "StringToBigInt (toString n) = Inr n"
proof (cases "n < 0")
  case True
  have "Digits 10 (DecimalDigits (nat (- n))) = Some (nat (- n))"
    by (simp add: Digits_def DecimalDigits_not_Nil digitsValue_DecimalDigits)
  then have "StrIntegerLiteral (CHR ''-'' # DecimalDigits (nat (- n))) = Some (- int (nat (- n)))"
    by simp
  with True show ?thesis
    by (simp add: StringToBigInt_def toString_def trim_minus_DecimalDigits del: StrIntegerLiteral.simps)
next
  case False
  then show ?thesis
    by (simp add: StringToBigInt_def toString_def trim_DecimalDigits
        StrIntegerLiteral_DecimalDigits DecimalDigits_not_Nil)
qed

lemma toString_inj:
  assumes "toString a = toString b"
  shows "a = b"
proof -
  have "(Inr a :: thrown + int) = StringToBigInt (toString a)"
    by (simp only: StringToBigInt_toString)
  also have "\<dots> = StringToBigInt (toString b)"
    by (simp only: assms)
  also have "\<dots> = Inr b"
    by (simp only: StringToBigInt_toString)
  finally show ?thesis by simp
qed

lemma toString_8: "toString 8 = ''8''"
  by code_simp

lemma toString_eq_8: "(toString n = ''8'') = (n = 8)"
  using toString_inj [of n 8] toString_8 by auto



section \<open>The base resolver\<close>

lemma StringToBigInt_empty: "StringToBigInt [] = Inr 0"
  by (simp add: StringToBigInt_def trim_def)

lemma reduce_bits_candidates:
  assumes "\<forall>r \<in> set (List.map_filter (roles guild) ids). denotes_bitmask (permissions r)"
  shows "reduce_bits acc (filter truthy (map (role_permissions guild) ids)) =
           Inr (fold (\<lambda>role a. a OR capability_set role) (List.map_filter (roles guild) ids) acc)"
  using assms
proof (induction ids arbitrary: acc)
  case Nil
  show ?case by (simp add: map_filter_simps)
next
  case (Cons rid ids)
  show ?case
  proof (cases "roles guild rid")
    case None
    with Cons show ?thesis
      by (simp add: map_filter_simps role_permissions_def)
  next
    case (Some r)
    with Cons.prems have "denotes_bitmask (permissions r)"
      by (simp add: map_filter_simps)
    then obtain v where v: "StringToBigInt (permissions r) = Inr v"
      by (auto simp: denotes_bitmask_def split: sum.splits)
    from Cons.prems Some
    have rest: "\<forall>r \<in> set (List.map_filter (roles guild) ids). denotes_bitmask (permissions r)"
      by (simp add: map_filter_simps)
    show ?thesis
    proof (cases "permissions r = []")
      case True
      with v have "v = 0" by (simp add: StringToBigInt_empty)
      with True Some v Cons.IH [OF rest, of acc] show ?thesis
        by (simp add: map_filter_simps role_permissions_def capability_set_def)
    next
      case False
      with Some v Cons.IH [OF rest, of "acc OR v"] show ?thesis
        by (simp add: map_filter_simps role_permissions_def capability_set_def)
    qed
  qed
qed

lemma toString_not_8: "v AND (8::int) = 0 \<Longrightarrow> toString v \<noteq> ''8''"
proof
  assume a: "v AND (8::int) = 0" and "toString v = ''8''"
  then have "v = 8" by (simp add: toString_eq_8)
  with a show False by simp
qed

text \<open>
  C4. For a member that is cached and is not the guild owner, in a cached guild whose
  candidate roles (the member's recorded roles for the guild plus the everyone role,
  unresolvable identifiers dropped) all carry a permission string that denotes a bitmask,
  \<open>computeBasePermissions\<close> returns the sentinel \<open>"8"\<close> exactly when the bitwise OR of
  the candidate roles' capability sets has the ADMINISTRATOR bit, and otherwise returns
  that OR printed as a string. The test is made once, on the aggregate.
\<close>

theorem base_is_union_with_admin_shortcut:
  assumes "cache_guilds cache gid = Some guild"
    and "ownerID guild \<noteq> memberID"
    and "cache_members cache memberID = Some member"
    and "\<forall>r \<in> set (candidate_roles guild member gid). denotes_bitmask (permissions r)"
  shows "computeBasePermissions cache memberID gid =
           Inr (if union_of_roles (candidate_roles guild member gid) AND Permissions ADMINISTRATOR \<noteq> 0
                then ''8'' else toString (union_of_roles (candidate_roles guild member gid)))
         \<and> (computeBasePermissions cache memberID gid = Inr ''8'') =
             (union_of_roles (candidate_roles guild member gid) AND Permissions ADMINISTRATOR \<noteq> 0)"
proof -
  let ?ids = "(case member_roles member gid of None \<Rightarrow> [] | Some rs \<Rightarrow> rs) @ [gid]"
  let ?u = "union_of_roles (candidate_roles guild member gid)"
  have "reduce_bits 0 (filter truthy (map (role_permissions guild) ?ids)) = Inr ?u"
    using reduce_bits_candidates [of guild ?ids 0] assms(4)
    by (simp add: candidate_roles_def union_of_roles_def)
  with assms(1-3) have eq: "computeBasePermissions cache memberID gid =
      Inr (if ?u AND Permissions ADMINISTRATOR \<noteq> 0 then ''8'' else toString ?u)"
    by (simp add: computeBasePermissions_def)
  have "?u AND Permissions ADMINISTRATOR = 0 \<Longrightarrow> toString ?u \<noteq> ''8''"
    using toString_not_8 [of ?u] by simp
  with eq show ?thesis by auto
qed

theorem base_is_union_witness:
  "computeBasePermissions cache_G ''M'' ''G'' = Inr ''3072''
   \<and> union_of_roles (candidate_roles guild_G member_M ''G'') = 3072"
proof -
  have g: "cache_guilds cache_G ''G'' = Some guild_G" by (simp add: cache_G_def)
  have o: "ownerID guild_G \<noteq> ''M''" by (simp add: guild_G_def)
  have m: "cache_members cache_G ''M'' = Some member_M" by (simp add: cache_G_def)
  have c: "candidate_roles guild_G member_M ''G'' = [role_R1, role_everyone]"
    by (simp add: candidate_roles_def member_roles_def guild_G_def member_M_def map_filter_simps)
  have d1: "denotes_bitmask (permissions role_R1)" by code_simp
  have d2: "denotes_bitmask (permissions role_everyone)" by code_simp
  have d: "\<forall>r \<in> set (candidate_roles guild_G member_M ''G''). denotes_bitmask (permissions r)"
    by (simp add: c d1 d2)
  have u: "union_of_roles [role_R1, role_everyone] = 3072" by code_simp
  have t: "toString 3072 = ''3072''" by code_simp
  from base_is_union_with_admin_shortcut [OF g o m d] show ?thesis
    by (simp add: c u t)
qed

text \<open>
  C5. For every cached guild, \<open>computeBasePermissions\<close> called with the guild owner's
  identifier returns the sentinel \<open>"8"\<close>, whatever the member table and the roles hold:
  nothing is looked up or aggregated.
\<close>

theorem owner_gets_sentinel:
  "cache_guilds cache gid = Some guild \<Longrightarrow>
   computeBasePermissions cache (ownerID guild) gid = Inr ''8''"
  by (simp add: computeBasePermissions_def)

theorem owner_gets_sentinel_witness:
  "cache_guilds cache_no_members ''G'' = Some guild_G
   \<and> computeBasePermissions cache_no_members (ownerID guild_G) ''G'' = Inr ''8''"
proof -
  have g: "cache_guilds cache_no_members ''G'' = Some guild_G"
    by (simp add: cache_no_members_def)
  from owner_gets_sentinel [OF g] g show ?thesis by simp
qed

text \<open>
  C6 fails for the owner's identifier: with the guild cached and the owner absent from the
  member table, the call returns the sentinel instead of failing with MEMBER_NOT_FOUND,
  because the owner test comes before the member lookup.
\<close>

theorem not_found_owner_counterexample:
  "cache_guilds cache_no_members ''G'' = Some guild_G
   \<and> cache_members cache_no_members ''O'' = None
   \<and> computeBasePermissions cache_no_members ''O'' ''G'' = Inr ''8''
   \<and> computeBasePermissions cache_no_members ''O'' ''G'' \<noteq> Inl (Error MEMBER_NOT_FOUND)"
  by (simp add: computeBasePermissions_def cache_no_members_def guild_G_def)

text \<open>
  C6, amended. If the guild is absent from the cache, \<open>computeBasePermissions\<close> fails
  with GUILD_NOT_FOUND; if the guild is present, the member identifier is not the guild
  owner's and the member is absent from the cache, it fails with MEMBER_NOT_FOUND.
\<close>

theorem not_found_errors:
  "(cache_guilds cache gid = None \<longrightarrow>
      computeBasePermissions cache memberID gid = Inl (Error GUILD_NOT_FOUND))
   \<and> (\<forall>guild. cache_guilds cache gid = Some guild \<and> ownerID guild \<noteq> memberID
        \<and> cache_members cache memberID = None \<longrightarrow>
      computeBasePermissions cache memberID gid = Inl (Error MEMBER_NOT_FOUND))"
  by (simp add: computeBasePermissions_def)

theorem not_found_errors_witness:
  "cache_guilds cache_no_members ''X'' = None
   \<and> computeBasePermissions cache_no_members ''M'' ''X'' = Inl (Error GUILD_NOT_FOUND)
   \<and> cache_guilds cache_no_members ''G'' = Some guild_G \<and> ownerID guild_G \<noteq> ''M''
   \<and> cache_members cache_no_members ''M'' = None
   \<and> computeBasePermissions cache_no_members ''M'' ''G'' = Inl (Error MEMBER_NOT_FOUND)"
proof -
  have x: "cache_guilds cache_no_members ''X'' = None" by (simp add: cache_no_members_def)
  have g: "cache_guilds cache_no_members ''G'' = Some guild_G" by (simp add: cache_no_members_def)
  have o: "ownerID guild_G \<noteq> ''M''" by (simp add: guild_G_def)
  have m: "cache_members cache_no_members ''M'' = None" by (simp add: cache_no_members_def)
  from not_found_errors [of cache_no_members "''X''" "''M''"] x
  have 1: "computeBasePermissions cache_no_members ''M'' ''X'' = Inl (Error GUILD_NOT_FOUND)"
    by simp
  from not_found_errors [of cache_no_members "''G''" "''M''"] g o m
  have 2: "computeBasePermissions cache_no_members ''M'' ''G'' = Inl (Error MEMBER_NOT_FOUND)"
    by simp
  from x g o m 1 2 show ?thesis by simp
qed

section \<open>The permission set algebra\<close>

lemma forEach_missing_filter:
  assumes "StringToBigInt permissionBits = Inr b"
  shows "forEach_missing permissionBits req missing =
           Inr (missing @ filter (\<lambda>p. b AND Permissions p = 0) req)"
proof (induction req arbitrary: missing)
  case Nil
  show ?case by simp
next
  case (Cons p req)
  then show ?case by (simp add: has_bits_def assms)
qed

lemma base_output_denotes:
  assumes "computeBasePermissions cache memberID gid = Inr s"
  shows "\<exists>v. StringToBigInt s = Inr v"
proof -
  have 8: "StringToBigInt ''8'' = Inr 8" by code_simp
  from assms have "s = ''8'' \<or> (\<exists>v. s = toString v)"
    by (auto simp: computeBasePermissions_def Let_def split: option.splits if_splits sum.splits)
  then show ?thesis
    using 8 StringToBigInt_toString by auto
qed

text \<open>
  C9. For every permission string that denotes a bitmask and is not the sentinel, and
  every list of required flags, \<open>missingPermissions\<close> returns exactly the required
  flags that have no bit in the bitmask, in the order requested; for the sentinel it
  returns the empty list. \<open>throwOnMissingGuildPermission\<close>, on the string the base
  resolver produced, throws the one \<open>MISSING_\<close> error of the first missing flag, and
  nothing when no flag is missing.
\<close>

theorem missing_is_filter_and_first_is_thrown:
  assumes "StringToBigInt permissionBits = Inr b"
    and "permissionBits \<noteq> ''8''"
  shows "missingPermissions permissionBits req = Inr (filter (\<lambda>p. b AND Permissions p = 0) req)
         \<and> missingPermissions ''8'' req = Inr []
         \<and> (computeBasePermissions cache memberID gid = Inr permissionBits \<longrightarrow>
              throwOnMissingGuildPermission cache memberID gid req =
                (case filter (\<lambda>p. b AND Permissions p = 0) req of
                   [] \<Rightarrow> Inr ()
                 | first # others \<Rightarrow> Inl (Error (MISSING first))))
         \<and> (computeBasePermissions cache memberID gid = Inr ''8'' \<longrightarrow>
              throwOnMissingGuildPermission cache memberID gid req = Inr ())"
proof -
  have m: "missingPermissions permissionBits req = Inr (filter (\<lambda>p. b AND Permissions p = 0) req)"
    using assms forEach_missing_filter [OF assms(1), of req "[]"]
    by (simp add: missingPermissions_def)
  have s: "missingPermissions ''8'' req = Inr []"
    by (simp add: missingPermissions_def)
  show ?thesis
    by (simp add: m s throwOnMissingGuildPermission_def split: list.splits)
qed

theorem missing_is_filter_witness:
  "missingPermissions ''3072'' [KICK_MEMBERS, VIEW_CHANNEL, BAN_MEMBERS, SEND_MESSAGES] =
     Inr [KICK_MEMBERS, BAN_MEMBERS]
   \<and> throwOnMissingGuildPermission cache_G ''M'' ''G''
       [KICK_MEMBERS, VIEW_CHANNEL, BAN_MEMBERS, SEND_MESSAGES] = Inl (Error (MISSING KICK_MEMBERS))
   \<and> throwOnMissingGuildPermission cache_G ''M'' ''G'' [VIEW_CHANNEL, SEND_MESSAGES] = Inr ()"
proof -
  have p: "StringToBigInt ''3072'' = Inr 3072" by code_simp
  have n: "''3072'' \<noteq> ''8''" by simp
  have c: "computeBasePermissions cache_G ''M'' ''G'' = Inr ''3072''" by code_simp
  from missing_is_filter_and_first_is_thrown [OF p n, of "[KICK_MEMBERS, VIEW_CHANNEL, BAN_MEMBERS, SEND_MESSAGES]" cache_G "''M''" "''G''"] c
  have 1: "missingPermissions ''3072'' [KICK_MEMBERS, VIEW_CHANNEL, BAN_MEMBERS, SEND_MESSAGES] =
     Inr [KICK_MEMBERS, BAN_MEMBERS]
   \<and> throwOnMissingGuildPermission cache_G ''M'' ''G''
       [KICK_MEMBERS, VIEW_CHANNEL, BAN_MEMBERS, SEND_MESSAGES] = Inl (Error (MISSING KICK_MEMBERS))"
    by simp
  from missing_is_filter_and_first_is_thrown [OF p n, of "[VIEW_CHANNEL, SEND_MESSAGES]" cache_G "''M''" "''G''"] c
  have 2: "throwOnMissingGuildPermission cache_G ''M'' ''G'' [VIEW_CHANNEL, SEND_MESSAGES] = Inr ()"
    by simp
  from 1 2 show ?thesis by simp
qed

section \<open>Role ranking\<close>

text \<open>
  C7 fails when identities are compared by value: the roles \<open>"9"\<close> and \<open>"10"\<close> share a
  position and 9 is the smaller identity value, yet \<open>higherRolePosition\<close> answers that
  \<open>"9"\<close> does not outrank \<open>"10"\<close>, because \<open><\<close> on two strings compares them
  character by character.
\<close>

theorem ranking_by_value_counterexample:
  "cache_guilds cache_ranks ''G'' = Some guild_ranks
   \<and> roles guild_ranks ''9'' = Some (rank_role ''9'')
   \<and> roles guild_ranks ''10'' = Some (rank_role ''10'')
   \<and> higherRole_spec (rank_role ''9'') (rank_role ''10'')
   \<and> higherRolePosition cache_ranks ''G'' ''9'' ''10'' = Inr False"
proof -
  have g: "cache_guilds cache_ranks ''G'' = Some guild_ranks" by (simp add: cache_ranks_def)
  have a: "roles guild_ranks ''9'' = Some (rank_role ''9'')" by (simp add: guild_ranks_def)
  have b: "roles guild_ranks ''10'' = Some (rank_role ''10'')" by (simp add: guild_ranks_def)
  have s: "higherRole_spec (rank_role ''9'') (rank_role ''10'')" by code_simp
  have c: "higherRolePosition cache_ranks ''G'' ''9'' ''10'' = Inr False" by code_simp
  from g a b s c show ?thesis by simp
qed

text \<open>
  C7, amended. For two roles \<open>a\<close> and \<open>b\<close> of a cached guild, \<open>higherRolePosition\<close>
  returns true exactly when \<open>a\<close>'s position is greater than \<open>b\<close>'s, or the positions
  are equal and \<open>a\<close>'s identity string is smaller than \<open>b\<close>'s in the character-wise
  order of strings; so at equal positions \<open>"100"\<close> outranks \<open>"200"\<close>.
\<close>

theorem ranking_by_string_order:
  assumes "cache_guilds cache gid = Some guild"
    and "roles guild roleID = Some a"
    and "roles guild otherRoleID = Some b"
  shows "higherRolePosition cache gid roleID otherRoleID =
           Inr (position a > position b
                \<or> (position a = position b \<and> string_less (id_role a) (id_role b)))"
  using assms by (auto simp: higherRolePosition_def compare_roles_def)

theorem ranking_by_string_order_witness:
  "higherRolePosition cache_ranks ''G'' ''100'' ''200'' = Inr True
   \<and> higherRolePosition cache_ranks ''G'' ''200'' ''100'' = Inr False"
proof -
  have g: "cache_guilds cache_ranks ''G'' = Some guild_ranks" by (simp add: cache_ranks_def)
  have a: "roles guild_ranks ''100'' = Some (rank_role ''100'')" by (simp add: guild_ranks_def)
  have b: "roles guild_ranks ''200'' = Some (rank_role ''200'')" by (simp add: guild_ranks_def)
  from ranking_by_string_order [OF g a b] ranking_by_string_order [OF g b a]
  show ?thesis by (simp add: rank_role_def)
qed

lemma digitVal_decimal:
  "48 \<le> (of_char c :: nat) \<Longrightarrow> (of_char c :: nat) \<le> 57 \<Longrightarrow> digitVal c = Some (of_char c - 48)"
  by (simp add: digitVal_def)

lemma digitsValue_decimal:
  assumes "\<forall>c \<in> set xs. 48 \<le> (of_char c :: nat) \<and> (of_char c :: nat) \<le> 57"
  shows "\<exists>v < 10 ^ length xs. \<forall>acc. digitsValue 10 acc xs = Some (acc * 10 ^ length xs + v)"
  using assms
proof (induction xs)
  case Nil
  show ?case by simp
next
  case (Cons c cs)
  then obtain v where v: "v < 10 ^ length cs"
    and dv: "\<And>acc. digitsValue 10 acc cs = Some (acc * 10 ^ length cs + v)"
    by auto
  from Cons.prems have c: "48 \<le> (of_char c :: nat)" "(of_char c :: nat) \<le> 57" by auto
  define d where "d = (of_char c - 48 :: nat)"
  have d9: "d \<le> 9" using c by (simp add: d_def)
  have dc: "digitVal c = Some d" using c by (simp add: digitVal_decimal d_def)
  have "d * 10 ^ length cs + v < 10 * 10 ^ length cs"
  proof -
    have "d * 10 ^ length cs \<le> 9 * 10 ^ length cs"
      using d9 by (rule mult_le_mono1)
    with v show ?thesis by linarith
  qed
  moreover have "\<forall>acc. digitsValue 10 acc (c # cs) =
      Some (acc * 10 ^ length (c # cs) + (d * 10 ^ length cs + v))"
    using d9 by (simp add: dc dv algebra_simps)
  ultimately show ?case by auto
qed

lemma identity_value_Cons:
  assumes "\<forall>c \<in> set (x # xs). 48 \<le> (of_char c :: nat) \<and> (of_char c :: nat) \<le> 57"
  shows "identity_value (x # xs) = (of_char x - 48) * 10 ^ length xs + identity_value xs
         \<and> identity_value xs < 10 ^ length xs"
proof -
  from assms have xs: "\<forall>c \<in> set xs. 48 \<le> (of_char c :: nat) \<and> (of_char c :: nat) \<le> 57"
    and x: "48 \<le> (of_char x :: nat)" "(of_char x :: nat) \<le> 57" by auto
  from digitsValue_decimal [OF xs] obtain v where v: "v < 10 ^ length xs"
    and dv: "\<And>acc. digitsValue 10 acc xs = Some (acc * 10 ^ length xs + v)"
    by auto
  have iv: "identity_value xs = v"
    using dv [of 0] v by (cases xs) (auto simp: identity_value_def Digits_def)
  have d: "(of_char x - 48 :: nat) < 10" using x by linarith
  have "identity_value (x # xs) = (of_char x - 48) * 10 ^ length xs + v"
    using x d by (simp add: identity_value_def Digits_def digitVal_decimal dv)
  with iv v show ?thesis by simp
qed

lemma leading_digit_decides:
  fixes N :: nat
  assumes "vx < N" "vy < N" "dx < dy"
  shows "dx * N + vx < dy * N + vy"
proof -
  have "dx * N + vx < dx * N + N" using assms(1) by simp
  also have "\<dots> = Suc dx * N" by simp
  also have "\<dots> \<le> dy * N" using assms(3) by (intro mult_le_mono1) simp
  finally show ?thesis by simp
qed

text \<open>
  On decimal identities of the same length the character-wise order of the strings is
  the order of their values.
\<close>

lemma string_less_decimal:
  assumes "length xs = length ys"
    and "\<forall>c \<in> set xs. 48 \<le> (of_char c :: nat) \<and> (of_char c :: nat) \<le> 57"
    and "\<forall>c \<in> set ys. 48 \<le> (of_char c :: nat) \<and> (of_char c :: nat) \<le> 57"
  shows "string_less xs ys = (identity_value xs < identity_value ys)"
  using assms
proof (induction xs ys rule: list_induct2)
  case Nil
  show ?case by (simp add: identity_value_def Digits_def)
next
  case (Cons x xs y ys)
  let ?N = "10 ^ length xs :: nat"
  have X: "identity_value (x # xs) = (of_char x - 48) * ?N + identity_value xs"
    and vx: "identity_value xs < ?N"
    using identity_value_Cons [OF Cons.prems(1)] by auto
  have Y: "identity_value (y # ys) = (of_char y - 48) * ?N + identity_value ys"
    and vy: "identity_value ys < ?N"
    using identity_value_Cons [OF Cons.prems(2)] Cons.hyps by auto
  from Cons.prems have x: "48 \<le> (of_char x :: nat)" and y: "48 \<le> (of_char y :: nat)" by auto
  have IH: "string_less xs ys = (identity_value xs < identity_value ys)"
    using Cons.IH Cons.prems by simp
  show ?case
  proof (cases "x = y")
    case True
    with IH X Y show ?thesis by simp
  next
    case False
    then have ne: "(of_char x :: nat) \<noteq> of_char y" by simp
    show ?thesis
    proof (cases "(of_char x :: nat) < of_char y")
      case True
      with x have "(of_char x - 48 :: nat) < of_char y - 48" by linarith
      from leading_digit_decides [OF vx vy this] True False X Y show ?thesis by simp
    next
      case f: False
      with ne y have "(of_char y - 48 :: nat) < of_char x - 48" by linarith
      from leading_digit_decides [OF vy vx this] f False X Y show ?thesis by simp
    qed
  qed
qed

text \<open>The owner of a cached guild outranks every role, cached or not.\<close>

lemma owner_outranks:
  "cache_guilds cache gid = Some guild \<Longrightarrow>
   isHigherPosition cache gid (ownerID guild) compareRoleID = Inr True"
  by (simp add: isHigherPosition_def)

text \<open>
  C8 at a failing input. Member \<open>M\<close> holds the roles \<open>"200"\<close> and \<open>"100"\<close>, in that
  order, both at position 5. By \<open>higherRolePosition\<close> itself \<open>"100"\<close> is higher than
  \<open>"200"\<close> and higher than the role \<open>"150"\<close> at the same position. \<open>highestRole\<close>
  keeps the first role of maximal position, \<open>"200"\<close>, and \<open>isHigherPosition\<close>
  answers false.
\<close>

theorem highest_role_ignores_tie_break:
  "higherRolePosition cache_ranks ''G'' ''100'' ''200'' = Inr True
   \<and> higherRolePosition cache_ranks ''G'' ''100'' ''150'' = Inr True
   \<and> highestRole cache_ranks ''G'' ''M'' = Inr (Some (rank_role ''200''))
   \<and> isHigherPosition cache_ranks ''G'' ''M'' ''150'' = Inr False"
proof -
  have a: "higherRolePosition cache_ranks ''G'' ''100'' ''200'' = Inr True" by code_simp
  have b: "higherRolePosition cache_ranks ''G'' ''100'' ''150'' = Inr True" by code_simp
  have h: "highestRole cache_ranks ''G'' ''M'' = Inr (Some (rank_role ''200''))"
    by (simp add: highestRole_def cache_ranks_def guild_ranks_def member_ranks_def
        member_roles_def rank_role_def)
  have i: "isHigherPosition cache_ranks ''G'' ''M'' ''150'' = Inr False" by code_simp
  from a b h i show ?thesis by simp
qed

section \<open>The overwrite resolver\<close>

lemma clear_then_set_keeps_clear:
  "p AND m = 0 \<Longrightarrow> a AND m = 0 \<Longrightarrow> ((p AND NOT d) OR a) AND m = (0::int)"
  by (auto simp: bit_eq_iff bit_and_iff bit_or_iff bit_not_iff)

lemma clear_then_set_removes:
  "d AND f = f \<Longrightarrow> a AND f = 0 \<Longrightarrow> ((p AND NOT d) OR a) AND f = (0::int)"
  by (auto simp: bit_eq_iff bit_and_iff bit_or_iff bit_not_iff)

lemma find_overwrite_in_set: "find_overwrite ows x = Some ow \<Longrightarrow> ow \<in> set ows"
  by (auto simp: find_overwrite_def find_Some_iff)

lemma find_overwrite_id: "find_overwrite ows x = Some ow \<Longrightarrow> id_overwrite ow = x"
  by (auto simp: find_overwrite_def find_Some_iff)

text \<open>
  The role loop starts with \<open>deny = 0\<close> and only ever clears bits of it, so the mask it
  hands on is 0 whatever the overwrites deny.
\<close>

lemma role_loop_deny_zero:
  "role_loop ows keys (al, 0) = Inr (al', dn') \<Longrightarrow> dn' = 0"
proof (induction keys arbitrary: al)
  case Nil
  then show ?case by simp
next
  case (Cons k keys)
  then show ?case
    by (auto split: option.splits sum.splits)
qed

lemma role_loop_allow_admin_clear:
  assumes "\<forall>ow \<in> set ows. \<not> overwrite_has_admin ow"
  shows "al AND Permissions ADMINISTRATOR = 0 \<Longrightarrow> role_loop ows keys (al, dn) = Inr (al', dn')
         \<Longrightarrow> al' AND Permissions ADMINISTRATOR = 0"
proof (induction keys arbitrary: al dn)
  case Nil
  then show ?case by simp
next
  case (Cons k keys)
  show ?case
  proof (cases "find_overwrite ows k")
    case None
    with Cons show ?thesis by simp
  next
    case (Some ow)
    with assms have na: "\<not> overwrite_has_admin ow"
      using find_overwrite_in_set by blast
    from Cons.prems(2) Some obtain d a where
      d: "StringToBigInt (deny ow) = Inr d" and a: "StringToBigInt (allow ow) = Inr a"
      and rest: "role_loop ows keys (al OR a, dn AND NOT d) = Inr (al', dn')"
      by (auto split: sum.splits)
    from na a have "a AND Permissions ADMINISTRATOR = 0"
      by (simp add: overwrite_has_admin_def admin_bit_set_def)
    with Cons.prems(1) have "(al OR a) AND Permissions ADMINISTRATOR = 0"
      by (simp add: bit.conj_disj_distrib2)
    from Cons.IH [OF this rest] show ?thesis .
  qed
qed

lemma apply_overwrite_admin_clear:
  assumes "p AND Permissions ADMINISTRATOR = 0"
    and "\<And>ow. found = Some ow \<Longrightarrow> \<not> overwrite_has_admin ow"
    and "apply_overwrite p found = Inr p'"
  shows "p' AND Permissions ADMINISTRATOR = 0"
proof (cases found)
  case None
  with assms show ?thesis by (simp add: apply_overwrite_def)
next
  case (Some ow)
  with assms(3) obtain d a where
    d: "StringToBigInt (deny ow) = Inr d" and a: "StringToBigInt (allow ow) = Inr a"
    and p': "p' = (p AND NOT d) OR a"
    by (auto simp: apply_overwrite_def split: sum.splits)
  from assms(2) [OF Some] a have "a AND Permissions ADMINISTRATOR = 0"
    by (simp add: overwrite_has_admin_def admin_bit_set_def)
  with assms(1) p' show ?thesis
    using clear_then_set_keeps_clear [of p "Permissions ADMINISTRATOR" a d] by simp
qed

lemma toString_admin_clear:
  "v AND Permissions ADMINISTRATOR = 0 \<Longrightarrow> sentinel_or_admin_clear (toString v)"
  by (simp add: sentinel_or_admin_clear_def denotes_bitmask_def admin_bit_set_def
      StringToBigInt_toString)

lemma sentinel_8: "sentinel_or_admin_clear ''8''"
  by (simp add: sentinel_or_admin_clear_def)

lemma admin_bit_set_8: "admin_bit_set ''8''"
  by code_simp

lemma sentinel_test_agrees:
  "sentinel_or_admin_clear s \<Longrightarrow> (s = ''8'') = admin_bit_set s"
  using admin_bit_set_8 by (auto simp: sentinel_or_admin_clear_def)

text \<open>
  Past line 72 the three tiers keep the invariant: from any bigint, with no overwrite
  of the channel carrying the ADMINISTRATOR bit, the string returned is the sentinel or
  has the bit clear.
\<close>

lemma overwrite_tiers_admin_clear:
  assumes "\<forall>ow \<in> set (permissionOverwrites channel). \<not> overwrite_has_admin ow"
    and "overwrite_tiers cache memberID channel perms = Inr s"
  shows "sentinel_or_admin_clear s"
proof (cases "perms AND Permissions ADMINISTRATOR \<noteq> 0")
  case True
  with assms(2) have "s = ''8''" by (simp add: overwrite_tiers_def)
  then show ?thesis by (simp add: sentinel_8)
next
  case False
  then have p0: "perms AND Permissions ADMINISTRATOR = 0" by simp
  let ?ows = "permissionOverwrites channel"
  from assms(2) False obtain member p1 al dn p3 where
    e: "apply_overwrite perms (find_overwrite ?ows (guildID channel)) = Inr p1"
    and r: "role_loop ?ows (for_in_keys (member_roles member (guildID channel))) (0, 0) = Inr (al, dn)"
    and m: "apply_overwrite ((p1 AND NOT dn) OR al) (find_overwrite ?ows memberID) = Inr p3"
    and s: "s = toString p3"
    by (auto simp: overwrite_tiers_def split: option.splits sum.splits prod.splits)
  have p1: "p1 AND Permissions ADMINISTRATOR = 0"
    using apply_overwrite_admin_clear [OF p0 _ e] assms(1) find_overwrite_in_set by blast
  have al: "al AND Permissions ADMINISTRATOR = 0"
    using role_loop_allow_admin_clear [OF assms(1) _ r] by simp
  have p2: "((p1 AND NOT dn) OR al) AND Permissions ADMINISTRATOR = 0"
    using clear_then_set_keeps_clear [OF p1 al] .
  have p3: "p3 AND Permissions ADMINISTRATOR = 0"
    using apply_overwrite_admin_clear [OF p2 _ m] assms(1) find_overwrite_in_set by blast
  with s show ?thesis by (simp add: toString_admin_clear)
qed

lemma base_output_shape:
  assumes "computeBasePermissions cache memberID gid = Inr s"
  shows "s = ''8'' \<or> (\<exists>v. s = toString v \<and> v AND Permissions ADMINISTRATOR = 0)"
  using assms
  by (auto simp: computeBasePermissions_def Let_def split: option.splits if_splits sum.splits)

lemma channel_output_shape:
  assumes "computeChannelOverwrites cache memberID channelID = Inr s"
  shows "s = ''8''"
  using assms
  by (auto simp: computeChannelOverwrites_def BigInt_Promise simp del: BigInt.simps
      split: option.splits if_splits)

text \<open>
  C10. Every string \<open>computeBasePermissions\<close> returns, and every string
  \<open>computeChannelOverwrites\<close> returns for a channel none of whose overwrites carries
  the ADMINISTRATOR bit in its allow or deny mask, is the sentinel \<open>"8"\<close> or denotes a
  bitmask with the ADMINISTRATOR bit clear; on such a string the comparison with
  \<open>"8"\<close> and the test of the ADMINISTRATOR bit agree. The same holds for the tiers of
  lines 73 to 115 started from any bigint.
\<close>

theorem produced_strings_respect_sentinel:
  "(computeBasePermissions cache memberID gid = Inr s \<longrightarrow>
      sentinel_or_admin_clear s \<and> (s = ''8'') = admin_bit_set s)
   \<and> (\<forall>channel. cache_channels cache channelID = Some channel
         \<and> (\<forall>ow \<in> set (permissionOverwrites channel). \<not> overwrite_has_admin ow)
         \<and> computeChannelOverwrites cache memberID channelID = Inr s' \<longrightarrow>
      sentinel_or_admin_clear s' \<and> (s' = ''8'') = admin_bit_set s')
   \<and> ((\<forall>ow \<in> set (permissionOverwrites ch). \<not> overwrite_has_admin ow)
         \<and> overwrite_tiers cache memberID ch perms = Inr s'' \<longrightarrow>
      sentinel_or_admin_clear s'' \<and> (s'' = ''8'') = admin_bit_set s'')"
proof -
  have 1: "sentinel_or_admin_clear s" if "computeBasePermissions cache memberID gid = Inr s"
    using base_output_shape [OF that] sentinel_8 toString_admin_clear by auto
  have 2: "sentinel_or_admin_clear s'" if "computeChannelOverwrites cache memberID channelID = Inr s'"
    using channel_output_shape [OF that] sentinel_8 by simp
  have 3: "sentinel_or_admin_clear s''"
    if "\<forall>ow \<in> set (permissionOverwrites ch). \<not> overwrite_has_admin ow"
      and "overwrite_tiers cache memberID ch perms = Inr s''"
    using overwrite_tiers_admin_clear [OF that] .
  from 1 2 3 show ?thesis
    using sentinel_test_agrees by blast
qed

theorem produced_strings_witness:
  "computeBasePermissions cache_G ''M'' ''G'' = Inr ''3072''
   \<and> sentinel_or_admin_clear ''3072'' \<and> \<not> admin_bit_set ''3072''
   \<and> computeChannelOverwrites cache_G ''M'' ''DM'' = Inr ''8''
   \<and> sentinel_or_admin_clear ''8'' \<and> admin_bit_set ''8''
   \<and> overwrite_tiers cache_G ''M'' channel_C 3072 = Inr ''1024''
   \<and> sentinel_or_admin_clear ''1024'' \<and> \<not> admin_bit_set ''1024''"
proof -
  have b: "computeBasePermissions cache_G ''M'' ''G'' = Inr ''3072''" by code_simp
  have c: "cache_channels cache_G ''DM'' = Some channel_DM" by (simp add: cache_G_def)
  have n: "\<forall>ow \<in> set (permissionOverwrites channel_DM). \<not> overwrite_has_admin ow"
    by (simp add: channel_DM_def)
  have d: "computeChannelOverwrites cache_G ''M'' ''DM'' = Inr ''8''" by code_simp
  have o1: "\<not> overwrite_has_admin \<lparr>id_overwrite = ''G'', allow = ''0'', deny = ''2048''\<rparr>"
    by code_simp
  have o2: "\<not> overwrite_has_admin \<lparr>id_overwrite = ''R1'', allow = ''2048'', deny = ''0''\<rparr>"
    by code_simp
  have o: "\<forall>ow \<in> set (permissionOverwrites channel_C). \<not> overwrite_has_admin ow"
    by (simp add: channel_C_def o1 o2)
  have t: "overwrite_tiers cache_G ''M'' channel_C 3072 = Inr ''1024''" by code_simp
  from produced_strings_respect_sentinel
         [of cache_G "''M''" "''G''" "''3072''" "''DM''" "''8''" channel_C 3072 "''1024''"]
       b c n d o t
  show ?thesis by simp
qed

text \<open>
  Every call for a channel of a guild ends at line 72: the promise is no integer literal.
\<close>

lemma guild_channel_throws:
  "cache_channels cache channelID = Some channel \<Longrightarrow> guildID channel \<noteq> [] \<Longrightarrow>
   computeChannelOverwrites cache memberID channelID = Inl SyntaxError"
  by (simp add: computeChannelOverwrites_def BigInt_Promise del: BigInt.simps)

text \<open>
  The role tier of lines 89 to 105 never removes a bit: with the mask it accumulates,
  clearing and setting is setting alone.
\<close>

lemma role_tier_never_denies:
  "role_loop ows keys (0, 0) = Inr (al, dn) \<Longrightarrow> (p AND NOT dn) OR al = p OR al"
  using role_loop_deny_zero [of ows keys 0 al dn] by simp

text \<open>
  The member tier of lines 106 to 113, where it is reached: the overwrite found for the
  member is applied to the outcome of the two earlier tiers, deny bits cleared first
  and allow bits set after; a flag it denies and does not allow is absent from the result.
\<close>

lemma member_tier_applied_last:
  assumes "perms AND Permissions ADMINISTRATOR = 0"
    and "cache_members cache memberID = Some member"
    and "apply_overwrite perms
           (find_overwrite (permissionOverwrites channel) (guildID channel)) = Inr p1"
    and "role_loop (permissionOverwrites channel)
           (for_in_keys (member_roles member (guildID channel))) (0, 0) = Inr (al, dn)"
    and "find_overwrite (permissionOverwrites channel) memberID = Some ow"
    and "StringToBigInt (deny ow) = Inr d"
    and "StringToBigInt (allow ow) = Inr a"
  shows "overwrite_tiers cache memberID channel perms =
           Inr (toString ((((p1 AND NOT dn) OR al) AND NOT d) OR a))"
  using assms by (simp add: overwrite_tiers_def apply_overwrite_def)

text \<open>
  C1 at a failing input. Member \<open>M\<close> holds role \<open>R1\<close>, the base permissions are
  VIEW_CHANNEL and SEND_MESSAGES (3072), and channel \<open>C1\<close> denies SEND_MESSAGES to
  \<open>R1\<close>. The call throws at line 72; the role tier itself enumerates the index
  \<open>"0"\<close> instead of \<open>R1\<close>, ends with both masks 0, and leaves SEND_MESSAGES set.
\<close>

theorem role_tier_drops_deny:
  "computeBasePermissions cache_G ''M'' ''G'' = Inr ''3072''
   \<and> computeChannelOverwrites cache_G ''M'' ''C1'' = Inl SyntaxError
   \<and> for_in_keys (member_roles member_M ''G'') = [''0'']
   \<and> role_loop (permissionOverwrites channel_C1)
        (for_in_keys (member_roles member_M ''G'')) (0, 0) = Inr (0, 0)
   \<and> role_loop [\<lparr>id_overwrite = ''0'', allow = ''0'', deny = ''2048''\<rparr>] [''0''] (0, 0) = Inr (0, 0)
   \<and> overwrite_tiers cache_G ''M'' channel_C1 3072 = Inr ''3072''"
  by code_simp

text \<open>
  C2 at its own scenario. The base permissions of \<open>M\<close> in \<open>G\<close> are 3072; the call for
  channel \<open>C\<close> throws at line 72, and the tiers applied to 3072 return 1024, which is
  VIEW_CHANNEL without SEND_MESSAGES.
\<close>

theorem end_to_end_scenario_fails:
  "computeBasePermissions cache_G ''M'' ''G'' = Inr ''3072''
   \<and> computeChannelOverwrites cache_G ''M'' ''C'' = Inl SyntaxError
   \<and> overwrite_tiers cache_G ''M'' channel_C 3072 = Inr ''1024''
   \<and> 1024 AND Permissions VIEW_CHANNEL \<noteq> 0
   \<and> 1024 AND Permissions SEND_MESSAGES = 0"
  by code_simp

text \<open>
  C3 at a failing input. Channel \<open>C3\<close> carries an overwrite for member \<open>M\<close> that
  denies SEND_MESSAGES, and the call throws at line 72 before any tier is applied. The
  tiers applied to the base permissions 3072 would return 1024, SEND_MESSAGES removed.
\<close>

theorem member_overwrite_not_reached:
  "find_overwrite (permissionOverwrites channel_C3) ''M'' =
     Some \<lparr>id_overwrite = ''M'', allow = ''0'', deny = ''2048''\<rparr>
   \<and> computeBasePermissions cache_G ''M'' ''G'' = Inr ''3072''
   \<and> computeChannelOverwrites cache_G ''M'' ''C3'' = Inl SyntaxError
   \<and> overwrite_tiers cache_G ''M'' channel_C3 3072 = Inr ''1024''"
  by code_simp

end
